theory Spec2Isabelle
  imports Main "HOL-Library.Word"
begin

section \<open>The relay server (server/src/index.ts)\<close>

text \<open>
  The relay is one Node process with a single event loop. Its state is the two module-level
  sets \<open>botClients\<close> and \<open>webClients\<close>, the local flag \<open>stopping\<close>, and what it has done
  to the outside: the payloads handed to \<open>send\<close> of each socket, the \<open>close()\<close> calls it made,
  the log lines, the \<open>server.close()\<close> request and the exit code.

  A \<open>WebSocket\<close> object is named by a number: the ws library creates a new object for every
  accepted connection, so the n-th \<open>connection\<close> event carries object n. A JavaScript
  \<open>Set\<close> iterates in insertion order and holds no duplicates: it is a list here, with
  \<open>add\<close> and \<open>delete\<close> written out.
\<close>

type_synonym bytes = "8 word list"

type_synonym sock = nat

datatype ReadyState = CONNECTING | OPEN | CLOSING | CLOSED

datatype clientKind = BotClient | WebClient

datatype signal = SIGHUP | SIGINT | SIGTERM

record relay =
  botClients :: "sock list"
  webClients :: "sock list"
  handlers :: "sock \<Rightarrow> clientKind option"
  readyState :: "sock \<Rightarrow> ReadyState"
  sent :: "sock \<Rightarrow> bytes list"
  closeCalls :: "sock list"
  nextSocket :: sock
  relayLog :: "string list"
  stopping :: bool
  serverClosing :: bool
  exitCode :: "int option"

text \<open>
  \<open>handlers s ws\<close> tells which branch of the \<open>connection\<close> callback registered the
  listeners of socket \<open>ws\<close> (\<open>None\<close>: no such socket yet). \<open>readyState\<close> is the socket's
  own field, written by the ws library and read by the broadcast loop.
\<close>

definition set_add :: "'a \<Rightarrow> 'a list \<Rightarrow> 'a list" where
  "set_add x xs = (if x \<in> set xs then xs else xs @ [x])"

definition set_delete :: "'a \<Rightarrow> 'a list \<Rightarrow> 'a list" where
  "set_delete x xs = filter (\<lambda>y. y \<noteq> x) xs"

definition logger :: "string \<Rightarrow> relay \<Rightarrow> relay" where
  "logger msg s = s\<lparr>relayLog := relayLog s @ [msg]\<rparr>"

text \<open>
  \<open>URLSearchParams.get(name)\<close> on the parsed query of \<open>request.url\<close>: the value of the
  first pair with that name, or \<open>null\<close>.
\<close>

definition searchParams_get :: "(string \<times> string) list \<Rightarrow> string \<Rightarrow> string option" where
  "searchParams_get query name = map_of query name"

text \<open>\<open>botClient.send(data)\<close>: the payload leaves on that socket.\<close>

definition send :: "sock \<Rightarrow> bytes \<Rightarrow> relay \<Rightarrow> relay" where
  "send ws data s = s\<lparr>sent := (sent s)(ws := sent s ws @ [data])\<rparr>"

text \<open>The \<open>for (const botClient of botClients)\<close> loop of the web client's message listener.\<close>

fun broadcast_loop :: "sock list \<Rightarrow> bytes \<Rightarrow> relay \<Rightarrow> relay" where
  "broadcast_loop [] data s = s"
| "broadcast_loop (botClient # rest) data s =
     broadcast_loop rest data
       (if readyState s botClient = OPEN then send botClient data s else s)"

definition on_message :: "bytes \<Rightarrow> relay \<Rightarrow> relay" where
  "on_message data s = broadcast_loop (botClients s) data s"

definition on_bot_close :: "sock \<Rightarrow> relay \<Rightarrow> relay" where
  "on_bot_close ws s =
     (let s1 = logger ''Bot client disconnected'' s
      in s1\<lparr>botClients := set_delete ws (botClients s1)\<rparr>)"

definition on_web_close :: "sock \<Rightarrow> relay \<Rightarrow> relay" where
  "on_web_close ws s =
     (let s1 = logger ''Web client disconnected'' s
      in s1\<lparr>webClients := set_delete ws (webClients s1)\<rparr>)"

definition on_error :: "relay \<Rightarrow> relay" where
  "on_error s = logger ''WebSocket error'' s"

text \<open>
  \<open>new URL(request.url!, "ws://localhost")\<close> is the platform's URL parser. What it does
  with the target of a request comes with the \<open>connection\<close> event: \<open>None\<close> when the
  parser throws \<open>TypeError\<close> (the target \<open>//\<close>, with its empty host, is such a target),
  otherwise the pairs of the query.
\<close>

datatype error = TypeError

definition new_URL :: "(string \<times> string) list option \<Rightarrow> error + (string \<times> string) list" where
  "new_URL url = (case url of None \<Rightarrow> Inl TypeError | Some query \<Rightarrow> Inr query)"

text \<open>
  The \<open>connection\<close> callback. The library hands over a new socket, open after the
  handshake; the callback parses the URL of the request, with nothing to catch what the
  parser throws, reads \<open>type\<close> from the query, adds the socket to one of the two sets
  and registers the listeners of that branch.
\<close>

definition on_connection :: "(string \<times> string) list option \<Rightarrow> relay \<Rightarrow> error + relay" where
  "on_connection url s =
     (case new_URL url of
        Inl err \<Rightarrow> Inl err
      | Inr query \<Rightarrow>
          Inr (let ws = nextSocket s;
                   s0 = s\<lparr>nextSocket := Suc ws, readyState := (readyState s)(ws := OPEN)\<rparr>;
                   clientType = searchParams_get query ''type''
               in if clientType = Some ''bot''
                  then (let s1 = logger ''New bot client connected'' s0
                        in s1\<lparr>botClients := set_add ws (botClients s1),
                               handlers := (handlers s1)(ws \<mapsto> BotClient)\<rparr>)
                  else (let s1 = logger ''New web client connected'' s0
                        in s1\<lparr>webClients := set_add ws (webClients s1),
                               handlers := (handlers s1)(ws \<mapsto> WebClient)\<rparr>)))"

text \<open>
  An exception that leaves a listener is caught by nobody (the program listens for
  \<open>unhandledRejection\<close> only): Node prints it and the process ends with exit code 1, in
  the turn of the event loop in which it was thrown. The state keeps what the program had
  registered before that turn.
\<close>

definition uncaughtException :: "relay \<Rightarrow> relay" where
  "uncaughtException s = s\<lparr>exitCode := Some 1\<rparr>"

fun signal_name :: "signal \<Rightarrow> string" where
  "signal_name SIGHUP = ''SIGHUP''"
| "signal_name SIGINT = ''SIGINT''"
| "signal_name SIGTERM = ''SIGTERM''"

text \<open>
  The signal listener: guarded by \<open>stopping\<close>, it logs, calls \<open>server.close()\<close> and then
  \<open>process.exit(0)\<close>, all in one turn of the event loop (the body has no \<open>await\<close>).
  \<open>server.close()\<close> only asks the HTTP server to stop listening: the server's \<open>close\<close>
  event is emitted by the event loop in a later turn.
\<close>

definition on_signal :: "signal \<Rightarrow> relay \<Rightarrow> relay" where
  "on_signal sig s =
     (if stopping s then s
      else (let s1 = s\<lparr>stopping := True\<rparr>;
                s2 = logger (''Received signal '' @ signal_name sig @ '', shutting down...'') s1;
                s3 = logger ''exiting...'' s2;
                s4 = s3\<lparr>serverClosing := True\<rparr>
            in s4\<lparr>exitCode := Some 0\<rparr>))"

text \<open>
  \<open>client.close()\<close> of the ws library: a socket that is not yet closed starts its closing
  handshake; the call emits nothing by itself.
\<close>

definition ws_close :: "sock \<Rightarrow> relay \<Rightarrow> relay" where
  "ws_close ws s =
     s\<lparr>closeCalls := closeCalls s @ [ws],
       readyState := (readyState s)
         (ws := (if readyState s ws = CLOSED then CLOSED else CLOSING))\<rparr>"

text \<open>The listener of the HTTP server's \<open>close\<close> event.\<close>

definition server_on_close :: "relay \<Rightarrow> relay" where
  "server_on_close s =
     (let s1 = fold ws_close (webClients s @ botClients s) s
      in s1\<lparr>webClients := [], botClients := []\<rparr>)"

text \<open>
  What the event loop can dispatch. \<open>Connection url\<close> is the \<open>connection\<close> event of the
  WebSocket server, with what the URL parser makes of the request. \<open>Closing ws\<close> is the library moving an open socket to
  \<open>CLOSING\<close> when the peer starts the closing handshake; no listener of the program runs.
  Before it emits \<open>close\<close> on a socket the library sets its state to \<open>CLOSED\<close>. A socket
  without listeners has no events. The HTTP server emits \<open>close\<close> only after
  \<open>server.close()\<close> was called. Once \<open>process.exit\<close> has run, nothing is dispatched.
\<close>

datatype event =
    Connection "(string \<times> string) list option"
  | Message sock bytes
  | Closing sock
  | Close sock
  | Error sock
  | Signal signal
  | ServerClose

fun handle :: "event \<Rightarrow> relay \<Rightarrow> relay" where
  "handle (Connection url) s =
     (case on_connection url s of Inl err \<Rightarrow> uncaughtException s | Inr s' \<Rightarrow> s')"
| "handle (Message ws data) s =
     (case handlers s ws of
        Some WebClient \<Rightarrow> on_message data s
      | _ \<Rightarrow> s)"
| "handle (Closing ws) s =
     (if handlers s ws \<noteq> None \<and> readyState s ws = OPEN
      then s\<lparr>readyState := (readyState s)(ws := CLOSING)\<rparr> else s)"
| "handle (Close ws) s =
     (case handlers s ws of
        None \<Rightarrow> s
      | Some BotClient \<Rightarrow> on_bot_close ws (s\<lparr>readyState := (readyState s)(ws := CLOSED)\<rparr>)
      | Some WebClient \<Rightarrow> on_web_close ws (s\<lparr>readyState := (readyState s)(ws := CLOSED)\<rparr>))"
| "handle (Error ws) s = (case handlers s ws of None \<Rightarrow> s | Some _ \<Rightarrow> on_error s)"
| "handle (Signal sig) s = on_signal sig s"
| "handle ServerClose s = (if serverClosing s then server_on_close s else s)"

definition step :: "event \<Rightarrow> relay \<Rightarrow> relay" where
  "step e s = (if exitCode s \<noteq> None then s else handle e s)"

definition relay_init :: relay where
  "relay_init =
     \<lparr>botClients = [], webClients = [], handlers = (\<lambda>_. None),
      readyState = (\<lambda>_. CONNECTING), sent = (\<lambda>_. []), closeCalls = [],
      nextSocket = 0, relayLog = [], stopping = False, serverClosing = False,
      exitCode = None\<rparr>"

definition run :: "event list \<Rightarrow> relay" where
  "run evs = fold step evs relay_init"

definition relay_inv :: "relay \<Rightarrow> bool" where
  "relay_inv s \<longleftrightarrow>
     distinct (botClients s) \<and> distinct (webClients s) \<and>
     (\<forall>c \<in> set (botClients s). handlers s c = Some BotClient) \<and>
     (\<forall>c \<in> set (webClients s). handlers s c = Some WebClient) \<and>
     (\<forall>c. handlers s c \<noteq> None \<longrightarrow> c < nextSocket s) \<and>
     (\<forall>c. readyState s c = OPEN \<longrightarrow> c \<in> set (botClients s) \<union> set (webClients s)) \<and>
     (\<forall>c. readyState s c = CLOSED \<longrightarrow> c \<notin> set (botClients s) \<union> set (webClients s)) \<and>
     (serverClosing s \<longrightarrow> exitCode s \<noteq> None)"

text \<open>Traces used as concrete inputs below.\<close>

definition evs1 :: "event list" where
  "evs1 = [Connection (Some [(''type'', ''bot'')]), Connection (Some [(''type'', ''bot'')]), Connection (Some []),
           Closing 1]"

definition evs2 :: "event list" where
  "evs2 = [Connection (Some [(''type'', ''bot'')]), Connection (Some []), Closing 0]"


section \<open>The voice bot (the consumer process)\<close>

text \<open>
  The bot is a second Node process. Its connector keeps one WebSocket to the relay and
  re-creates it after every close; frames travel over the module-level \<open>emitter\<close> to the
  audio streams that the \<open>join-voice-channel\<close> command created.

  The state holds a clock in milliseconds, the due times of the pending \<open>setTimeout\<close>
  callbacks (all of them the reconnect callback), the number of WebSocket objects created
  so far (object \<open>w\<close> exists when \<open>w < wsCount\<close>), the \<open>audio\<close> listeners of the emitter in
  registration order (listener \<open>k\<close> belongs to the stream of the k-th accepted command),
  the \<open>data\<close> events emitted on each stream, the calls of \<open>audioPlayer.play\<close> (by the
  number of the resource), the replies to interactions and the log. \<open>emitted\<close> records
  every \<open>emitter.emit("audio", \<dots>)\<close>.
\<close>

record AudioData =
  userId :: string
  audioBuffer :: bytes

record channel =
  channelId :: string
  channelType :: nat
  isVoiceChannel :: bool

text \<open>
  \<open>channelType\<close> is \<open>channel.type\<close>, \<open>isVoiceChannel\<close> is
  \<open>channel instanceof VoiceChannel\<close>; \<open>ChannelType.GuildVoice\<close> is the value 2 of
  the platform's enumeration.
\<close>

definition GuildVoice :: nat where
  "GuildVoice = 2"

record bot =
  now :: nat
  timers :: "nat list"
  wsCount :: nat
  emitted :: "AudioData list"
  audioListeners :: "nat list"
  streamData :: "nat \<Rightarrow> bytes list"
  joined :: nat
  playCalls :: "nat list"
  replies :: "string list"
  botLog :: "string list"

definition bot_logger :: "string \<Rightarrow> bot \<Rightarrow> bot" where
  "bot_logger msg s = s\<lparr>botLog := botLog s @ [msg]\<rparr>"

text \<open>\<open>setTimeout(callback, delay)\<close> with the reconnect callback.\<close>

definition setTimeout :: "nat \<Rightarrow> bot \<Rightarrow> bot" where
  "setTimeout delay s = s\<lparr>timers := timers s @ [now s + delay]\<rparr>"

text \<open>
  \<open>connectToWebSocket\<close>: a new WebSocket object with the four listeners below.
\<close>

definition connectToWebSocket :: "bot \<Rightarrow> bot" where
  "connectToWebSocket s =
     (let s1 = bot_logger ''connecting to websocket'' s
      in s1\<lparr>wsCount := Suc (wsCount s1)\<rparr>)"

definition ws_on_open :: "bot \<Rightarrow> bot" where
  "ws_on_open s = bot_logger ''WebSocket connection established'' s"

text \<open>The listener that each accepted command puts on the emitter, for its own stream.\<close>

definition audio_listener :: "nat \<Rightarrow> AudioData \<Rightarrow> bot \<Rightarrow> bot" where
  "audio_listener k audioData s =
     s\<lparr>streamData := (streamData s)(k := streamData s k @ [audioBuffer audioData])\<rparr>"

text \<open>\<open>emitter.emit("audio", audioData)\<close>: the listeners run in registration order.\<close>

definition emit_audio :: "AudioData \<Rightarrow> bot \<Rightarrow> bot" where
  "emit_audio audioData s =
     fold (\<lambda>k. audio_listener k audioData) (audioListeners s)
       (s\<lparr>emitted := emitted s @ [audioData]\<rparr>)"

definition ws_on_message :: "bytes \<Rightarrow> bot \<Rightarrow> bot" where
  "ws_on_message data s =
     (let audioData = data
      in emit_audio \<lparr>userId = ''websocket-audio'', audioBuffer = audioData\<rparr> s)"

definition ws_on_error :: "bot \<Rightarrow> bot" where
  "ws_on_error s = bot_logger ''WebSocket connection error'' s"

definition ws_on_close :: "bot \<Rightarrow> bot" where
  "ws_on_close s = setTimeout 5000 (bot_logger ''WebSocket connection closed'' s)"

text \<open>The callback given to \<open>setTimeout\<close>.\<close>

definition reconnect_callback :: "bot \<Rightarrow> bot" where
  "reconnect_callback s = connectToWebSocket (bot_logger ''Attempting to reconnect...'' s)"

text \<open>
  The \<open>join-voice-channel\<close> handler. A channel that fails the check gets the error reply
  and nothing else happens. Otherwise the handler joins the channel, creates the stream
  and its resource, registers the \<open>audio\<close> listener for that stream and the \<open>Ready\<close>
  listener of the new voice connection, and replies. It never calls \<open>play\<close> itself.
\<close>

definition join_voice_channel :: "channel \<Rightarrow> bot \<Rightarrow> bot" where
  "join_voice_channel ch s =
     (let s1 = bot_logger (''got join-voice-channel for channel: '' @ channelId ch) s
      in if channelType ch \<noteq> GuildVoice \<or> \<not> isVoiceChannel ch
         then s1\<lparr>replies := replies s1 @ [''ERROR: can only set this to a voice channel!'']\<rparr>
         else (let k = joined s1
               in s1\<lparr>joined := Suc k,
                      audioListeners := audioListeners s1 @ [k],
                      replies := replies s1 @
                        [''Joined voice channel <#'' @ channelId ch @
                         ''>! Now listening for audio.'']\<rparr>))"

text \<open>The \<open>Ready\<close> listener of voice connection \<open>k\<close>: the only caller of \<open>play\<close>.\<close>

definition connection_on_ready :: "nat \<Rightarrow> bot \<Rightarrow> bot" where
  "connection_on_ready k s =
     (let s1 = bot_logger ''Connection is ready, starting playback'' s
      in s1\<lparr>playCalls := playCalls s1 @ [k]\<rparr>)"

text \<open>
  The \<open>InteractionCreate\<close> listener: it logs the command name and runs the handler of the
  command with that name, if there is one.
\<close>

definition on_interaction :: "string \<Rightarrow> channel \<Rightarrow> bot \<Rightarrow> bot" where
  "on_interaction commandName ch s =
     (let s1 = bot_logger (''got interaction: '' @ commandName) s
      in if commandName = ''join-voice-channel'' then join_voice_channel ch s1 else s1)"

text \<open>
  Timers: when the clock has passed the due time of pending callbacks, the event loop runs
  them, oldest first, and forgets them. The program never calls \<open>clearTimeout\<close>.
\<close>

definition run_timers :: "bot \<Rightarrow> bot" where
  "run_timers s =
     (let due = filter (\<lambda>t. t \<le> now s) (timers s);
          rest = filter (\<lambda>t. \<not> t \<le> now s) (timers s)
      in fold (\<lambda>_. reconnect_callback) due (s\<lparr>timers := rest\<rparr>))"

datatype bot_event =
    WsOpen nat
  | WsMessage nat bytes
  | WsError nat
  | WsClose nat
  | Elapse nat
  | Interaction string channel
  | ConnectionReady nat

fun bot_step :: "bot_event \<Rightarrow> bot \<Rightarrow> bot" where
  "bot_step (WsOpen w) s = (if w < wsCount s then ws_on_open s else s)"
| "bot_step (WsMessage w data) s = (if w < wsCount s then ws_on_message data s else s)"
| "bot_step (WsError w) s = (if w < wsCount s then ws_on_error s else s)"
| "bot_step (WsClose w) s = (if w < wsCount s then ws_on_close s else s)"
| "bot_step (Elapse n) s = run_timers (s\<lparr>now := now s + n\<rparr>)"
| "bot_step (Interaction commandName ch) s = on_interaction commandName ch s"
| "bot_step (ConnectionReady k) s = (if k < joined s then connection_on_ready k s else s)"

text \<open>The module's top level calls \<open>connectToWebSocket()\<close> once.\<close>

definition bot_init :: bot where
  "bot_init =
     connectToWebSocket
       \<lparr>now = 0, timers = [], wsCount = 0, emitted = [], audioListeners = [],
        streamData = (\<lambda>_. []), joined = 0, playCalls = [], replies = [], botLog = []\<rparr>"

definition bot_run :: "bot_event list \<Rightarrow> bot" where
  "bot_run evs = fold bot_step evs bot_init"

text \<open>The commands of a trace that pass the handler's channel check.\<close>

fun accepted_join :: "bot_event \<Rightarrow> bool" where
  "accepted_join (Interaction commandName ch) =
     (commandName = ''join-voice-channel'' \<and> channelType ch = GuildVoice \<and> isVoiceChannel ch)"
| "accepted_join _ = False"

definition voice_channel :: channel where
  "voice_channel = \<lparr>channelId = ''42'', channelType = 2, isVoiceChannel = True\<rparr>"

definition text_channel :: channel where
  "text_channel = \<lparr>channelId = ''7'', channelType = 0, isVoiceChannel = False\<rparr>"

text \<open>What every reachable state of the bot satisfies.\<close>

definition bot_inv :: "bot \<Rightarrow> bool" where
  "bot_inv s \<longleftrightarrow>
     audioListeners s = [0..<joined s] \<and>
     (\<forall>t \<in> set (timers s). now s < t) \<and>
     Suc (count_list (botLog s) ''WebSocket connection closed'') = length (timers s) + wsCount s"

text \<open>Traces used as concrete inputs below.\<close>

definition evs5 :: "bot_event list" where
  "evs5 = [Interaction ''join-voice-channel'' voice_channel, WsMessage 0 [9]]"

definition evs6 :: "bot_event list" where
  "evs6 = [Interaction ''join-voice-channel'' voice_channel, WsMessage 0 [1, 2, 3],
           WsMessage 0 [4, 5]]"

definition evs9 :: "bot_event list" where
  "evs9 = [Interaction ''join-voice-channel'' voice_channel, WsMessage 0 [1],
           Interaction ''join-voice-channel'' text_channel,
           Interaction ''join-voice-channel'' voice_channel]"

section \<open>Properties of the relay\<close>

subsection \<open>The broadcast loop\<close>

lemma broadcast_loop_sent:
  "distinct bs \<Longrightarrow>
   broadcast_loop bs d s =
     s\<lparr>sent := (\<lambda>c. if c \<in> set bs \<and> readyState s c = OPEN
                      then sent s c @ [d] else sent s c)\<rparr>"
proof (induction bs arbitrary: s)
  case Nil
  show ?case by simp
next
  case (Cons b bs)
  then have d: "distinct bs" and nb: "b \<notin> set bs" by simp_all
  show ?case
  proof (cases "readyState s b = OPEN")
    case True
    then show ?thesis
      using nb by (simp add: Cons.IH [OF d] send_def fun_eq_iff)
  next
    case False
    then show ?thesis
      using nb by (auto simp add: Cons.IH [OF d] fun_eq_iff intro!: relay.equality)
  qed
qed

subsection \<open>Fields the loops leave alone\<close>

lemma broadcast_loop_other [simp]:
  "botClients (broadcast_loop bs d s) = botClients s"
  "webClients (broadcast_loop bs d s) = webClients s"
  "handlers (broadcast_loop bs d s) = handlers s"
  "readyState (broadcast_loop bs d s) = readyState s"
  "closeCalls (broadcast_loop bs d s) = closeCalls s"
  "nextSocket (broadcast_loop bs d s) = nextSocket s"
  "relayLog (broadcast_loop bs d s) = relayLog s"
  "stopping (broadcast_loop bs d s) = stopping s"
  "serverClosing (broadcast_loop bs d s) = serverClosing s"
  "exitCode (broadcast_loop bs d s) = exitCode s"
  by (induction bs arbitrary: s; simp add: send_def)+

lemma fold_ws_close_other [simp]:
  "botClients (fold ws_close cs s) = botClients s"
  "webClients (fold ws_close cs s) = webClients s"
  "handlers (fold ws_close cs s) = handlers s"
  "sent (fold ws_close cs s) = sent s"
  "nextSocket (fold ws_close cs s) = nextSocket s"
  "relayLog (fold ws_close cs s) = relayLog s"
  "stopping (fold ws_close cs s) = stopping s"
  "serverClosing (fold ws_close cs s) = serverClosing s"
  "exitCode (fold ws_close cs s) = exitCode s"
  by (induction cs arbitrary: s; simp add: ws_close_def)+

lemma fold_ws_close_calls: "closeCalls (fold ws_close cs s) = closeCalls s @ cs"
  by (induction cs arbitrary: s) (simp_all add: ws_close_def)

lemma fold_ws_close_ready:
  "readyState (fold ws_close cs s) c =
     (if c \<in> set cs \<and> readyState s c \<noteq> CLOSED then CLOSING else readyState s c)"
  by (induction cs arbitrary: s) (auto simp add: ws_close_def)

lemma set_set_add [simp]: "set (set_add x xs) = insert x (set xs)"
  by (auto simp: set_add_def)

lemma set_set_delete [simp]: "set (set_delete x xs) = set xs - {x}"
  by (auto simp: set_delete_def)

lemma distinct_set_add [simp]: "distinct xs \<Longrightarrow> distinct (set_add x xs)"
  by (simp add: set_add_def)

lemma distinct_set_delete [simp]: "distinct xs \<Longrightarrow> distinct (set_delete x xs)"
  by (simp add: set_delete_def)

lemma relay_inv_init: "relay_inv relay_init"
  by (simp add: relay_inv_def relay_init_def)

lemma relay_inv_handle: "relay_inv s \<Longrightarrow> exitCode s = None \<Longrightarrow> relay_inv (handle e s)"
proof (cases e)
  case (Connection q)
  assume "relay_inv s" "exitCode s = None"
  then show ?thesis unfolding Connection relay_inv_def
    by (auto simp: on_connection_def new_URL_def uncaughtException_def logger_def Let_def
          less_Suc_eq split: if_splits option.splits)
next
  case (Message ws d)
  assume "relay_inv s" "exitCode s = None"
  then show ?thesis unfolding Message relay_inv_def
    by (auto simp: on_message_def split: option.splits clientKind.splits)
next
  case (Closing ws)
  assume "relay_inv s" "exitCode s = None"
  then show ?thesis unfolding Closing relay_inv_def
    by auto
next
  case (Close ws)
  assume "relay_inv s" "exitCode s = None"
  then show ?thesis unfolding Close relay_inv_def
    by (auto simp: on_bot_close_def on_web_close_def logger_def Let_def
             split: option.splits clientKind.splits)
next
  case (Error ws)
  assume "relay_inv s" "exitCode s = None"
  then show ?thesis unfolding Error relay_inv_def
    by (auto simp: on_error_def logger_def split: option.splits)
next
  case (Signal sig)
  assume "relay_inv s" "exitCode s = None"
  then show ?thesis unfolding Signal relay_inv_def
    by (auto simp: on_signal_def logger_def Let_def)
next
  case ServerClose
  assume "relay_inv s" "exitCode s = None"
  then show ?thesis unfolding ServerClose relay_inv_def
    by (auto simp: server_on_close_def Let_def fold_ws_close_ready)
qed

lemma relay_inv_step: "relay_inv s \<Longrightarrow> relay_inv (step e s)"
  by (simp add: step_def relay_inv_handle)

lemma relay_inv_fold: "relay_inv s \<Longrightarrow> relay_inv (fold step evs s)"
  by (induction evs arbitrary: s) (simp_all add: relay_inv_step)

lemma relay_inv_run: "relay_inv (run evs)"
  by (simp add: run_def relay_inv_fold relay_inv_init)

subsection \<open>Messages of producers and of consumers\<close>

lemma on_message_sent:
  "relay_inv s \<Longrightarrow>
   on_message d s =
     s\<lparr>sent := (\<lambda>c. if c \<in> set (botClients s) \<and> readyState s c = OPEN
                      then sent s c @ [d] else sent s c)\<rparr>"
  by (simp add: on_message_def relay_inv_def broadcast_loop_sent)

lemma step_message_web:
  "relay_inv s \<Longrightarrow> exitCode s = None \<Longrightarrow> handlers s p = Some WebClient \<Longrightarrow>
   step (Message p d) s =
     s\<lparr>sent := (\<lambda>c. if c \<in> set (botClients s) \<and> readyState s c = OPEN
                      then sent s c @ [d] else sent s c)\<rparr>"
  by (simp add: step_def on_message_sent)

lemma steps_message_web:
  "relay_inv s \<Longrightarrow> exitCode s = None \<Longrightarrow> handlers s p = Some WebClient \<Longrightarrow>
   fold step (map (Message p) ds) s =
     s\<lparr>sent := (\<lambda>c. if c \<in> set (botClients s) \<and> readyState s c = OPEN
                      then sent s c @ ds else sent s c)\<rparr>"
proof (induction ds arbitrary: s)
  case Nil
  show ?case by (simp cong: if_cong)
next
  case (Cons d ds)
  let ?s' = "step (Message p d) s"
  have eq: "?s' = s\<lparr>sent := (\<lambda>c. if c \<in> set (botClients s) \<and> readyState s c = OPEN
                      then sent s c @ [d] else sent s c)\<rparr>"
    using Cons.prems by (rule step_message_web)
  have inv': "relay_inv ?s'" using Cons.prems(1) by (rule relay_inv_step)
  have ex': "exitCode ?s' = None" and h': "handlers ?s' p = Some WebClient"
    using Cons.prems by (simp_all add: eq)
  have "fold step (map (Message p) (d # ds)) s = fold step (map (Message p) ds) ?s'"
    by simp
  also have "\<dots> = ?s'\<lparr>sent := (\<lambda>c. if c \<in> set (botClients ?s') \<and> readyState ?s' c = OPEN
                      then sent ?s' c @ ds else sent ?s' c)\<rparr>"
    using inv' ex' h' by (rule Cons.IH)
  also have "\<dots> = s\<lparr>sent := (\<lambda>c. if c \<in> set (botClients s) \<and> readyState s c = OPEN
                      then sent s c @ (d # ds) else sent s c)\<rparr>"
    by (simp add: eq fun_eq_iff)
  finally show ?case .
qed

lemma step_message_bot: "handlers s ws = Some BotClient \<Longrightarrow> step (Message ws d) s = s"
  by (simp add: step_def)

lemma steps_message_bot:
  "handlers s ws = Some BotClient \<Longrightarrow> fold step (map (Message ws) ds) s = s"
  by (induction ds) (simp_all add: step_message_bot)

text \<open>
  Claim C1. A data message received on a producer connection is forwarded, byte for byte, to
  every consumer in \<open>botClients\<close> whose state is \<open>OPEN\<close>: in every reachable state of a
  running relay, a message \<open>d\<close> on producer \<open>p\<close> appends \<open>d\<close> to what was sent to each
  open consumer and changes nothing else (consumers that are not open are skipped, nothing
  is logged or raised), and a sequence \<open>ds\<close> of messages is appended in arrival order. With
  no open consumer the state stays as it was.
\<close>

theorem broadcast_to_open_consumers:
  "let s = run evs;
       s1 = s\<lparr>sent := (\<lambda>c. if c \<in> set (botClients s) \<and> readyState s c = OPEN
                            then sent s c @ [d] else sent s c)\<rparr>;
       sn = s\<lparr>sent := (\<lambda>c. if c \<in> set (botClients s) \<and> readyState s c = OPEN
                            then sent s c @ ds else sent s c)\<rparr>
   in exitCode s = None \<and> handlers s p = Some WebClient \<longrightarrow>
        step (Message p d) s = s1 \<and> fold step (map (Message p) ds) s = sn \<and>
        ((\<forall>c \<in> set (botClients s). readyState s c \<noteq> OPEN) \<longrightarrow>
           step (Message p d) s = s \<and> fold step (map (Message p) ds) s = s)"
proof -
  have inv: "relay_inv (run evs)" by (rule relay_inv_run)
  show ?thesis
    unfolding Let_def
    by (auto simp: step_message_web [OF inv] steps_message_web [OF inv] fun_eq_iff
             intro!: relay.equality)
qed

theorem broadcast_to_open_consumers_witness:
  "exitCode (run evs1) = None \<and> handlers (run evs1) 2 = Some WebClient \<and>
   sent (fold step (map (Message 2) [[1, 2, 3], [4, 5]]) (run evs1)) 0 = [[1, 2, 3], [4, 5]] \<and>
   sent (fold step (map (Message 2) [[1, 2, 3], [4, 5]]) (run evs1)) 1 = [] \<and>
   botClients (run evs2) = [0] \<and> readyState (run evs2) 0 = CLOSING \<and>
   handlers (run evs2) 1 = Some WebClient \<and>
   step (Message 1 [7]) (run evs2) = run evs2"
  using broadcast_to_open_consumers [of evs1 "[1, 2, 3]" "[[1, 2, 3], [4, 5]]" 2]
        broadcast_to_open_consumers [of evs2 "[7]" "[]" 1]
  by (simp add: evs1_def evs2_def run_def step_def relay_init_def on_connection_def new_URL_def uncaughtException_def logger_def
        searchParams_get_def set_add_def on_message_def send_def Let_def)

text \<open>
  Claim C10. A message arriving on a consumer (bot) connection is discarded: the bot branch
  registers no \<open>message\<close> listener, so every tracked consumer has the bot listeners only,
  and any sequence of messages on such a socket leaves the whole state of the relay
  (the two sets, everything sent, the log) as it was.
\<close>

theorem bot_messages_discarded:
  "let s = run evs
   in (ws \<in> set (botClients s) \<longrightarrow> handlers s ws = Some BotClient) \<and>
      (handlers s ws = Some BotClient \<longrightarrow> fold step (map (Message ws) ds) s = s)"
  using relay_inv_run [of evs]
  by (simp add: steps_message_bot relay_inv_def)

theorem bot_messages_discarded_witness:
  "0 \<in> set (botClients (run evs1)) \<and> handlers (run evs1) 0 = Some BotClient \<and>
   fold step (map (Message 0) [[1, 2], [3]]) (run evs1) = run evs1"
  using bot_messages_discarded [of evs1 0 "[[1, 2], [3]]"]
  by (simp add: evs1_def run_def step_def relay_init_def on_connection_def new_URL_def uncaughtException_def logger_def
        searchParams_get_def set_add_def Let_def)

subsection \<open>Role classification\<close>

lemma fresh_socket:
  "relay_inv s \<Longrightarrow> nextSocket s \<notin> set (botClients s) \<and> nextSocket s \<notin> set (webClients s)"
  by (auto simp: relay_inv_def)

lemma parsed_request_classified:
  "let s = run evs; ws = nextSocket s; s' = handle (Connection (Some query)) s
   in (ws \<in> set (botClients s') \<longleftrightarrow> searchParams_get query ''type'' = Some ''bot'') \<and>
      (ws \<in> set (webClients s') \<longleftrightarrow> searchParams_get query ''type'' \<noteq> Some ''bot'') \<and>
      handlers s' ws =
        Some (if searchParams_get query ''type'' = Some ''bot'' then BotClient else WebClient)"
  using fresh_socket [OF relay_inv_run, of evs]
  by (simp add: on_connection_def new_URL_def logger_def Let_def)

lemma parsed_request_examples:
  "botClients (handle (Connection (Some [(''type'', ''bot'')])) (run [])) = [0] \<and>
   webClients (handle (Connection (Some [(''type'', ''Bot'')])) (run [])) = [0] \<and>
   webClients (handle (Connection (Some [(''kind'', ''bot'')])) (run [])) = [0] \<and>
   webClients (handle (Connection (Some [])) (run [])) = [0] \<and>
   webClients (handle (Connection (Some [(''type'', ''web''), (''type'', ''bot'')])) (run [])) = [0]"
  by (simp add: run_def relay_init_def on_connection_def new_URL_def logger_def
        searchParams_get_def set_add_def Let_def)

lemma unparsed_request_ends_process:
  "exitCode s = None \<Longrightarrow> step (Connection None) s = s\<lparr>exitCode := Some 1\<rparr>"
  by (simp add: step_def on_connection_def new_URL_def uncaughtException_def)

text \<open>
  Claim C2 asks that a connection is a consumer exactly when the role indicator of its
  request is the reserved token, and a producer for every other value and when there is
  none. For a request whose URL parses the code does that: the new socket goes to
  \<open>botClients\<close> exactly when \<open>type\<close> is the string \<open>bot\<close>, else to \<open>webClients\<close>. But a
  request whose target the URL parser rejects, such as \<open>//\<close>, carries no indicator and is
  not made a producer: the parser throws inside the callback, the socket enters neither
  set and gets no listeners, the process ends with exit code 1, and a later request, here
  one of a consumer, is not served any more.
\<close>

theorem unparsed_request_not_classified:
  "exitCode (run [Connection None]) = Some 1 \<and>
   botClients (run [Connection None]) = [] \<and>
   webClients (run [Connection None]) = [] \<and>
   handlers (run [Connection None]) 0 = None \<and>
   run [Connection None, Connection (Some [(''type'', ''bot'')])] = run [Connection None] \<and>
   exitCode (run [Connection (Some [(''type'', ''bot'')]), Connection (Some []), Connection None])
     = Some 1"
  by (simp add: run_def step_def relay_init_def on_connection_def new_URL_def
        uncaughtException_def logger_def searchParams_get_def set_add_def Let_def)

subsection \<open>The registry\<close>


lemma sets_on_closing:
  "botClients (handle (Closing ws) s) = botClients s \<and>
   webClients (handle (Closing ws) s) = webClients s"
  by simp





lemma sets_on_connection:
  "relay_inv s \<Longrightarrow> exitCode s = None \<Longrightarrow>
   (botClients (step (Connection (Some q)) s) = botClients s @ [nextSocket s] \<and>
    webClients (step (Connection (Some q)) s) = webClients s) \<or>
   (botClients (step (Connection (Some q)) s) = botClients s \<and>
    webClients (step (Connection (Some q)) s) = webClients s @ [nextSocket s])"
  using fresh_socket [of s]
  by (simp add: step_def on_connection_def new_URL_def logger_def Let_def set_add_def)




subsection \<open>Shutdown\<close>

lemma close_calls_step:
  "relay_inv s \<Longrightarrow> closeCalls s = [] \<Longrightarrow> closeCalls (step e s) = []"
  by (cases e)
     (auto simp: step_def relay_inv_def on_connection_def new_URL_def uncaughtException_def
        on_message_def on_bot_close_def on_web_close_def on_error_def on_signal_def logger_def
        Let_def split: option.splits clientKind.splits)

lemma close_calls_fold:
  "relay_inv s \<Longrightarrow> closeCalls s = [] \<Longrightarrow> closeCalls (fold step evs s) = []"
  by (induction evs arbitrary: s) (simp_all add: relay_inv_step close_calls_step)

lemma cleanup_never_runs: "closeCalls (run evs) = []"
  using close_calls_fold [OF relay_inv_init, of evs] by (simp add: run_def relay_init_def)

lemma signal_exits: "exitCode s = None \<Longrightarrow> \<not> stopping s \<Longrightarrow> exitCode (step (Signal sig) s) = Some 0"
  by (simp add: step_def on_signal_def logger_def Let_def)

lemma signal_one_shot: "step (Signal sig') (step (Signal sig) s) = step (Signal sig) s"
  by (simp add: step_def on_signal_def logger_def Let_def)

text \<open>
  Claim C7 asks that a termination signal closes every tracked connection, clears both
  sets and exits with code 0, later signals being ignored. The code does not do the
  first two: with one consumer and one producer connected, \<open>SIGTERM\<close> makes the process
  exit with code 0 and \<open>stopping\<close> set, but both sockets are still tracked, still open,
  and \<open>close()\<close> was called on neither. The listener that closes the tracked sockets and
  clears the sets hangs on the server's \<open>close\<close> event, which is not dispatched before
  \<open>process.exit(0)\<close> ends the process.
\<close>

theorem signal_exits_without_cleanup:
  "let s = run [Connection (Some [(''type'', ''bot'')]), Connection (Some []), Signal SIGTERM, ServerClose]
   in exitCode s = Some 0 \<and> stopping s \<and> botClients s = [0] \<and> webClients s = [1] \<and>
      closeCalls s = [] \<and> readyState s 0 = OPEN \<and> readyState s 1 = OPEN"
  by (simp add: run_def step_def relay_init_def on_connection_def new_URL_def uncaughtException_def logger_def
        searchParams_get_def set_add_def on_signal_def Let_def)

section \<open>Properties of the voice bot\<close>

lemmas bot_defs =
  bot_run_def bot_init_def connectToWebSocket_def bot_logger_def ws_on_open_def
  ws_on_message_def emit_audio_def audio_listener_def ws_on_error_def ws_on_close_def
  setTimeout_def reconnect_callback_def run_timers_def on_interaction_def
  join_voice_channel_def connection_on_ready_def GuildVoice_def voice_channel_def
  text_channel_def Let_def

subsection \<open>What the loops change\<close>

lemma fold_audio_listener:
  "distinct ks \<Longrightarrow>
   fold (\<lambda>k. audio_listener k a) ks s =
     s\<lparr>streamData := (\<lambda>k. if k \<in> set ks then streamData s k @ [audioBuffer a]
                            else streamData s k)\<rparr>"
proof (induction ks arbitrary: s)
  case Nil
  show ?case by simp
next
  case (Cons k ks)
  then have d: "distinct ks" and nk: "k \<notin> set ks" by simp_all
  show ?case
    using nk by (simp add: Cons.IH [OF d]) (simp add: audio_listener_def fun_eq_iff)
qed

lemma fold_audio_listener_fields [simp]:
  "now (fold (\<lambda>k. audio_listener k a) ks s) = now s"
  "timers (fold (\<lambda>k. audio_listener k a) ks s) = timers s"
  "wsCount (fold (\<lambda>k. audio_listener k a) ks s) = wsCount s"
  "emitted (fold (\<lambda>k. audio_listener k a) ks s) = emitted s"
  "audioListeners (fold (\<lambda>k. audio_listener k a) ks s) = audioListeners s"
  "joined (fold (\<lambda>k. audio_listener k a) ks s) = joined s"
  "playCalls (fold (\<lambda>k. audio_listener k a) ks s) = playCalls s"
  "replies (fold (\<lambda>k. audio_listener k a) ks s) = replies s"
  "botLog (fold (\<lambda>k. audio_listener k a) ks s) = botLog s"
  by (induction ks arbitrary: s; simp add: audio_listener_def)+

lemma fold_reconnect_fields [simp]:
  "now (fold (\<lambda>_. reconnect_callback) xs s) = now s"
  "timers (fold (\<lambda>_. reconnect_callback) xs s) = timers s"
  "emitted (fold (\<lambda>_. reconnect_callback) xs s) = emitted s"
  "audioListeners (fold (\<lambda>_. reconnect_callback) xs s) = audioListeners s"
  "streamData (fold (\<lambda>_. reconnect_callback) xs s) = streamData s"
  "joined (fold (\<lambda>_. reconnect_callback) xs s) = joined s"
  "playCalls (fold (\<lambda>_. reconnect_callback) xs s) = playCalls s"
  "replies (fold (\<lambda>_. reconnect_callback) xs s) = replies s"
  by (induction xs arbitrary: s;
      simp add: reconnect_callback_def connectToWebSocket_def bot_logger_def Let_def)+

lemma fold_reconnect_wsCount:
  "wsCount (fold (\<lambda>_. reconnect_callback) xs s) = wsCount s + length xs"
  by (induction xs arbitrary: s)
     (simp_all add: reconnect_callback_def connectToWebSocket_def bot_logger_def Let_def)

lemma fold_reconnect_closed_lines:
  "count_list (botLog (fold (\<lambda>_. reconnect_callback) xs s)) ''WebSocket connection closed'' =
   count_list (botLog s) ''WebSocket connection closed''"
  by (induction xs arbitrary: s)
     (simp_all add: reconnect_callback_def connectToWebSocket_def bot_logger_def Let_def)

lemma emit_audio_eq:
  "distinct (audioListeners s) \<Longrightarrow>
   emit_audio a s =
     s\<lparr>emitted := emitted s @ [a],
       streamData := (\<lambda>k. if k \<in> set (audioListeners s) then streamData s k @ [audioBuffer a]
                            else streamData s k)\<rparr>"
  by (simp add: emit_audio_def fold_audio_listener cong: if_cong)

lemma run_timers_wsCount:
  "wsCount (run_timers s) = wsCount s + length (filter (\<lambda>t. t \<le> now s) (timers s))"
  by (simp add: run_timers_def Let_def fold_reconnect_wsCount)

lemma run_timers_timers:
  "timers (run_timers s) = filter (\<lambda>t. \<not> t \<le> now s) (timers s)"
  by (simp add: run_timers_def Let_def)

lemma length_filter_split:
  "length (filter P xs) + length (filter (\<lambda>x. \<not> P x) xs) = length xs"
  by (induction xs) simp_all

lemma bot_inv_init: "bot_inv bot_init"
  by (simp add: bot_inv_def bot_init_def connectToWebSocket_def bot_logger_def Let_def)

lemma bot_inv_open: "bot_inv s \<Longrightarrow> bot_inv (ws_on_open s)"
  by (simp add: bot_inv_def ws_on_open_def bot_logger_def)

lemma bot_inv_error: "bot_inv s \<Longrightarrow> bot_inv (ws_on_error s)"
  by (simp add: bot_inv_def ws_on_error_def bot_logger_def)

lemma bot_inv_close: "bot_inv s \<Longrightarrow> bot_inv (ws_on_close s)"
  by (simp add: bot_inv_def ws_on_close_def setTimeout_def bot_logger_def)

lemma bot_inv_message: "bot_inv s \<Longrightarrow> bot_inv (ws_on_message d s)"
  by (simp add: bot_inv_def ws_on_message_def emit_audio_eq)

lemma bot_inv_ready: "bot_inv s \<Longrightarrow> bot_inv (connection_on_ready k s)"
  by (simp add: bot_inv_def connection_on_ready_def bot_logger_def Let_def)

lemma bot_inv_interaction: "bot_inv s \<Longrightarrow> bot_inv (on_interaction c ch s)"
  by (simp add: bot_inv_def on_interaction_def join_voice_channel_def bot_logger_def Let_def)

lemma bot_inv_elapse: 
  assumes "bot_inv s" shows "bot_inv (run_timers (s\<lparr>now := now s + n\<rparr>))"
proof -
  let ?s = "s\<lparr>now := now s + n\<rparr>"
  have a: "audioListeners (run_timers ?s) = [0..<joined (run_timers ?s)]"
    using assms by (simp add: run_timers_def Let_def bot_inv_def)
  have b: "\<forall>t \<in> set (timers (run_timers ?s)). now (run_timers ?s) < t"
    by (auto simp: run_timers_def Let_def)
  have c: "Suc (count_list (botLog (run_timers ?s)) ''WebSocket connection closed'') =
        length (timers (run_timers ?s)) + wsCount (run_timers ?s)"
    using assms length_filter_split [of "\<lambda>t. t \<le> now s + n" "timers s"]
    by (simp add: run_timers_wsCount run_timers_timers bot_inv_def)
       (simp add: run_timers_def Let_def fold_reconnect_closed_lines)
  show ?thesis using a b c by (simp add: bot_inv_def)
qed

lemma bot_inv_step: "bot_inv s \<Longrightarrow> bot_inv (bot_step e s)"
  by (cases e)
     (simp_all add: bot_inv_open bot_inv_error bot_inv_close bot_inv_message bot_inv_ready
        bot_inv_interaction bot_inv_elapse)

lemma bot_inv_fold: "bot_inv s \<Longrightarrow> bot_inv (fold bot_step evs s)"
  by (induction evs arbitrary: s) (simp_all add: bot_inv_step)

lemma bot_inv_run: "bot_inv (bot_run evs)"
  by (simp add: bot_run_def bot_inv_fold bot_inv_init)

subsection \<open>Reconnect timers\<close>

lemma timers_kept:
  "(\<forall>n. e \<noteq> Elapse n) \<Longrightarrow> \<exists>ts. timers (bot_step e s) = timers s @ ts"
  by (cases e)
     (simp_all add: ws_on_open_def ws_on_error_def ws_on_close_def setTimeout_def
       ws_on_message_def emit_audio_def on_interaction_def join_voice_channel_def
       connection_on_ready_def bot_logger_def Let_def)

text \<open>
  Claim C4. Every \<open>close\<close> event of the connector's socket schedules exactly one timer,
  due 5000 ms later, whatever happened before (no attempt limit, no growing or random
  delay). A pending timer is never removed by any event other than the passing of time:
  the other events only append to the list. When the clock passes, exactly the timers that
  are due leave the list and each creates one new socket; so no pending timer is ever
  overdue, and the \<open>close\<close> lines of the log are as many as the pending timers plus the
  reconnects made.
\<close>
theorem reconnect_after_close:
  "let s = bot_run evs
   in (w < wsCount s \<longrightarrow>
         timers (bot_step (WsClose w) s) = timers s @ [now s + 5000] \<and>
         wsCount (bot_step (WsClose w) s) = wsCount s) \<and>
      (\<forall>t \<in> set (timers s). now s < t) \<and>
      ((\<forall>n. e \<noteq> Elapse n) \<longrightarrow> (\<exists>ts. timers (bot_step e s) = timers s @ ts)) \<and>
      timers (bot_step (Elapse n) s) = filter (\<lambda>t. \<not> t \<le> now s + n) (timers s) \<and>
      wsCount (bot_step (Elapse n) s) =
        wsCount s + length (filter (\<lambda>t. t \<le> now s + n) (timers s)) \<and>
      Suc (count_list (botLog s) ''WebSocket connection closed'') =
        length (timers s) + wsCount s"
proof -
  let ?s = "bot_run evs"
  have inv: "bot_inv ?s" by (rule bot_inv_run)
  have a: "w < wsCount ?s \<longrightarrow>
         timers (bot_step (WsClose w) ?s) = timers ?s @ [now ?s + 5000] \<and>
         wsCount (bot_step (WsClose w) ?s) = wsCount ?s"
    by (simp add: ws_on_close_def setTimeout_def bot_logger_def)
  have b: "\<forall>t \<in> set (timers ?s). now ?s < t"
    using inv by (simp add: bot_inv_def)
  have c: "(\<forall>n. e \<noteq> Elapse n) \<longrightarrow> (\<exists>ts. timers (bot_step e ?s) = timers ?s @ ts)"
    using timers_kept [of e ?s] by blast
  have d: "timers (bot_step (Elapse n) ?s) = filter (\<lambda>t. \<not> t \<le> now ?s + n) (timers ?s)"
    by (simp add: run_timers_timers)
  have e: "wsCount (bot_step (Elapse n) ?s) =
        wsCount ?s + length (filter (\<lambda>t. t \<le> now ?s + n) (timers ?s))"
    by (simp add: run_timers_wsCount)
  have f: "Suc (count_list (botLog ?s) ''WebSocket connection closed'') =
        length (timers ?s) + wsCount ?s"
    using inv by (simp add: bot_inv_def)
  show ?thesis unfolding Let_def by (intro conjI a b c d e f)
qed

theorem reconnect_after_close_witness:
  "wsCount (bot_run []) = 1 \<and>
   timers (bot_step (WsClose 0) (bot_run [])) = [5000] \<and>
   wsCount (bot_run [WsClose 0, Elapse 4999]) = 1 \<and>
   timers (bot_run [WsClose 0, Elapse 4999]) = [5000] \<and>
   now (bot_run [WsClose 0, Elapse 4999]) < 5000 \<and>
   timers (bot_run [WsClose 0, Elapse 4999, WsError 0]) = [5000] \<and>
   wsCount (bot_run [WsClose 0, Elapse 4999, Elapse 1]) = 2 \<and>
   timers (bot_run [WsClose 0, Elapse 4999, Elapse 1]) = []"
proof -
  have a: "wsCount (bot_run []) = 1" "0 < wsCount (bot_run [])" "now (bot_run []) = 0"
    "timers (bot_run []) = []"
    "wsCount (bot_run [WsClose 0, Elapse 4999]) = 1"
    "timers (bot_run [WsClose 0, Elapse 4999]) = [5000]"
    "timers (bot_run [WsClose 0, Elapse 4999, WsError 0]) = [5000]"
    "wsCount (bot_run [WsClose 0, Elapse 4999, Elapse 1]) = 2"
    "timers (bot_run [WsClose 0, Elapse 4999, Elapse 1]) = []"
    by (simp_all add: bot_defs)
  from reconnect_after_close [of "[]" 0]
  have b: "0 < wsCount (bot_run []) \<longrightarrow>
      timers (bot_step (WsClose 0) (bot_run [])) = timers (bot_run []) @ [now (bot_run []) + 5000]"
    unfolding Let_def by blast
  from reconnect_after_close [of "[WsClose 0, Elapse 4999]"]
  have c: "\<forall>t \<in> set (timers (bot_run [WsClose 0, Elapse 4999])).
      now (bot_run [WsClose 0, Elapse 4999]) < t"
    unfolding Let_def by blast
  from a b have "timers (bot_step (WsClose 0) (bot_run [])) = [5000]" by simp
  moreover from a c have "now (bot_run [WsClose 0, Elapse 4999]) < 5000" by simp
  ultimately show ?thesis using a by simp
qed

subsection \<open>Frames\<close>

lemma ws_on_message_eq:
  "bot_inv s \<Longrightarrow>
   ws_on_message d s =
     s\<lparr>emitted := emitted s @ [\<lparr>userId = ''websocket-audio'', audioBuffer = d\<rparr>],
       streamData := (\<lambda>k. if k < joined s then streamData s k @ [d] else streamData s k)\<rparr>"
  by (simp add: ws_on_message_def emit_audio_eq bot_inv_def cong: if_cong)

lemma ws_messages_eq:
  "bot_inv s \<Longrightarrow> w < wsCount s \<Longrightarrow>
   fold bot_step (map (WsMessage w) ds) s =
     s\<lparr>emitted := emitted s @ map (\<lambda>d. \<lparr>userId = ''websocket-audio'', audioBuffer = d\<rparr>) ds,
       streamData := (\<lambda>k. if k < joined s then streamData s k @ ds else streamData s k)\<rparr>"
proof (induction ds arbitrary: s)
  case Nil
  show ?case by (simp cong: if_cong)
next
  case (Cons d ds)
  let ?s' = "bot_step (WsMessage w d) s"
  have eq: "?s' = s\<lparr>emitted := emitted s @ [\<lparr>userId = ''websocket-audio'', audioBuffer = d\<rparr>],
       streamData := (\<lambda>k. if k < joined s then streamData s k @ [d] else streamData s k)\<rparr>"
    using Cons.prems by (simp add: ws_on_message_eq)
  have inv': "bot_inv ?s'" using Cons.prems(1) by (rule bot_inv_step)
  have w': "w < wsCount ?s'" using Cons.prems(2) by (simp only: eq) simp
  have "fold bot_step (map (WsMessage w) (d # ds)) s = fold bot_step (map (WsMessage w) ds) ?s'"
    by simp
  also have "\<dots> = ?s'\<lparr>emitted := emitted ?s' @
         map (\<lambda>d. \<lparr>userId = ''websocket-audio'', audioBuffer = d\<rparr>) ds,
       streamData := (\<lambda>k. if k < joined ?s' then streamData ?s' k @ ds else streamData ?s' k)\<rparr>"
    using inv' w' by (rule Cons.IH)
  also have "\<dots> = s\<lparr>emitted := emitted s @
         map (\<lambda>d. \<lparr>userId = ''websocket-audio'', audioBuffer = d\<rparr>) (d # ds),
       streamData := (\<lambda>k. if k < joined s then streamData s k @ (d # ds) else streamData s k)\<rparr>"
    unfolding eq by (simp add: fun_eq_iff)
  finally show ?case .
qed

text \<open>
  Claim C5. Every message received on the connector's socket is emitted with the fixed
  \<open>userId\<close> \<open>websocket-audio\<close>, and its payload is appended to every audio stream
  created so far: a sequence \<open>ds\<close> of messages, of any length and in any reachable state,
  extends each stream by exactly \<open>ds\<close>, in arrival order, and changes nothing else (there
  is no limit and no state in which the connector holds frames back).
\<close>
theorem frames_reach_streams_in_order:
  "let s = bot_run evs
   in w < wsCount s \<longrightarrow>
        fold bot_step (map (WsMessage w) ds) s =
          s\<lparr>emitted := emitted s @
               map (\<lambda>d. \<lparr>userId = ''websocket-audio'', audioBuffer = d\<rparr>) ds,
            streamData := (\<lambda>k. if k < joined s then streamData s k @ ds
                                 else streamData s k)\<rparr>"
  using ws_messages_eq [OF bot_inv_run, of w evs ds] by (simp add: Let_def)

theorem frames_reach_streams_in_order_witness:
  "0 < wsCount (bot_run evs5) \<and>
   streamData (fold bot_step (map (WsMessage 0) [[1, 2, 3], [4, 5]]) (bot_run evs5)) 0 =
     [[9], [1, 2, 3], [4, 5]] \<and>
   emitted (fold bot_step (map (WsMessage 0) [[1, 2, 3], [4, 5]]) (bot_run evs5)) =
     [\<lparr>userId = ''websocket-audio'', audioBuffer = [9]\<rparr>,
      \<lparr>userId = ''websocket-audio'', audioBuffer = [1, 2, 3]\<rparr>,
      \<lparr>userId = ''websocket-audio'', audioBuffer = [4, 5]\<rparr>]"
proof -
  have a: "0 < wsCount (bot_run evs5)" "joined (bot_run evs5) = 1"
    "streamData (bot_run evs5) 0 = [[9]]"
    "emitted (bot_run evs5) = [\<lparr>userId = ''websocket-audio'', audioBuffer = [9]\<rparr>]"
    by (simp_all add: evs5_def bot_defs)
  from frames_reach_streams_in_order [of evs5 0 "[[1, 2, 3], [4, 5]]"] a(1)
  have "fold bot_step (map (WsMessage 0) [[1, 2, 3], [4, 5]]) (bot_run evs5) =
     (bot_run evs5)\<lparr>emitted := emitted (bot_run evs5) @
               map (\<lambda>d. \<lparr>userId = ''websocket-audio'', audioBuffer = d\<rparr>) [[1, 2, 3], [4, 5]],
            streamData := (\<lambda>k. if k < joined (bot_run evs5)
                                 then streamData (bot_run evs5) k @ [[1, 2, 3], [4, 5]]
                                 else streamData (bot_run evs5) k)\<rparr>"
    unfolding Let_def by blast
  then show ?thesis using a by simp
qed

subsection \<open>Playback\<close>

lemma playCalls_step:
  "set (playCalls (bot_step e s)) \<subseteq> set (playCalls s) \<union> {k. e = ConnectionReady k}"
  by (cases e)
     (auto simp add: ws_on_open_def ws_on_error_def ws_on_close_def setTimeout_def
       ws_on_message_def emit_audio_def on_interaction_def join_voice_channel_def
       connection_on_ready_def bot_logger_def run_timers_def Let_def)

lemma playCalls_fold:
  "set (playCalls (fold bot_step evs s)) \<subseteq>
     set (playCalls s) \<union> {k. ConnectionReady k \<in> set evs}"
proof (induction evs arbitrary: s)
  case Nil
  show ?case by simp
next
  case (Cons e evs)
  have "set (playCalls (fold bot_step evs (bot_step e s))) \<subseteq>
      set (playCalls (bot_step e s)) \<union> {k. ConnectionReady k \<in> set evs}"
    by (rule Cons.IH)
  with playCalls_step [of e s] show ?case by auto
qed

lemma playCalls_run: "k \<in> set (playCalls (bot_run evs)) \<Longrightarrow> ConnectionReady k \<in> set evs"
  using playCalls_fold [of evs bot_init]
  by (auto simp: bot_run_def bot_init_def connectToWebSocket_def bot_logger_def Let_def)

text \<open>
  Claim C6. \<open>audioPlayer.play\<close> is called with resource \<open>k\<close> only by the \<open>Ready\<close> listener
  of voice connection \<open>k\<close>: if the resource was played, a \<open>Ready\<close> event of that connection
  is in the trace, and a trace without \<open>Ready\<close> events has no \<open>play\<close> call. Frames and
  commands never call \<open>play\<close>: a frame that arrives earlier only goes to the streams.
\<close>
theorem play_only_after_ready:
  "let s = bot_run evs
   in (k \<in> set (playCalls s) \<longrightarrow> ConnectionReady k \<in> set evs) \<and>
      ((\<forall>j. ConnectionReady j \<notin> set evs) \<longrightarrow> playCalls s = []) \<and>
      playCalls (bot_step (WsMessage w d) s) = playCalls s \<and>
      playCalls (bot_step (Interaction c ch) s) = playCalls s \<and>
      (k < joined s \<longrightarrow> playCalls (bot_step (ConnectionReady k) s) = playCalls s @ [k])"
proof -
  let ?s = "bot_run evs"
  have a: "k \<in> set (playCalls ?s) \<longrightarrow> ConnectionReady k \<in> set evs"
    using playCalls_run by blast
  have b: "(\<forall>j. ConnectionReady j \<notin> set evs) \<longrightarrow> playCalls ?s = []"
  proof
    assume n: "\<forall>j. ConnectionReady j \<notin> set evs"
    have "k \<notin> set (playCalls ?s)" for k using playCalls_run [of k evs] n by blast
    then show "playCalls ?s = []" by (cases "playCalls ?s") auto
  qed
  have c: "playCalls (bot_step (WsMessage w d) ?s) = playCalls ?s"
    by (simp add: ws_on_message_def emit_audio_def)
  have d: "playCalls (bot_step (Interaction c ch) ?s) = playCalls ?s"
    by (simp add: on_interaction_def join_voice_channel_def bot_logger_def Let_def)
  have e: "k < joined ?s \<longrightarrow> playCalls (bot_step (ConnectionReady k) ?s) = playCalls ?s @ [k]"
    by (simp add: connection_on_ready_def bot_logger_def Let_def)
  show ?thesis unfolding Let_def by (intro conjI a b c d e)
qed

theorem play_only_after_ready_witness:
  "playCalls (bot_run evs6) = [] \<and>
   streamData (bot_run evs6) 0 = [[1, 2, 3], [4, 5]] \<and>
   playCalls (bot_run (evs6 @ [ConnectionReady 0])) = [0] \<and>
   ConnectionReady 0 \<in> set (evs6 @ [ConnectionReady 0])"
proof -
  have a: "streamData (bot_run evs6) 0 = [[1, 2, 3], [4, 5]]"
    "playCalls (bot_run (evs6 @ [ConnectionReady 0])) = [0]"
    by (simp_all add: evs6_def bot_defs)
  have n: "\<forall>j. ConnectionReady j \<notin> set evs6" by (simp add: evs6_def voice_channel_def)
  from play_only_after_ready [of evs6] n have b: "playCalls (bot_run evs6) = []"
    unfolding Let_def by blast
  from play_only_after_ready [of "evs6 @ [ConnectionReady 0]" 0] a(2)
  have c: "ConnectionReady 0 \<in> set (evs6 @ [ConnectionReady 0])"
    unfolding Let_def by simp
  from a b c show ?thesis by simp
qed

subsection \<open>The connector keeps no attempt count\<close>

lemma wsCount_mono: "wsCount s \<le> wsCount (bot_step e s)"
  by (cases e)
     (simp_all add: ws_on_open_def ws_on_error_def ws_on_close_def setTimeout_def
       ws_on_message_def emit_audio_def on_interaction_def join_voice_channel_def
       connection_on_ready_def bot_logger_def run_timers_wsCount Let_def)

text \<open>
  Claim C8, as stated, fails: the process keeps no attempt count. After a close, the
  reconnect five seconds later and the \<open>open\<close> event of the new socket, the state differs
  from the one before the \<open>open\<close> event in the log only; the number of sockets created,
  the only count the connector has, is still 2.
\<close>
theorem open_resets_nothing_counterexample:
  "wsCount (bot_run [WsClose 0, Elapse 5000]) = 2 \<and>
   wsCount (bot_run [WsClose 0, Elapse 5000, WsOpen 1]) = 2 \<and>
   timers (bot_run [WsClose 0, Elapse 5000, WsOpen 1]) = [] \<and>
   bot_run [WsClose 0, Elapse 5000, WsOpen 1] =
     (bot_run [WsClose 0, Elapse 5000])
       \<lparr>botLog := botLog (bot_run [WsClose 0, Elapse 5000]) @
          [''WebSocket connection established'']\<rparr>"
  by (simp add: bot_defs)

text \<open>
  Claim C8, amended. The \<open>open\<close> listener only logs and leaves every other part of the
  state as it was, and the number of sockets the connector has created is never reset:
  no event makes it smaller.
\<close>
theorem open_only_logs:
  "bot_step (WsOpen w) s =
     (if w < wsCount s then s\<lparr>botLog := botLog s @ [''WebSocket connection established'']\<rparr>
      else s) \<and>
   wsCount s \<le> wsCount (bot_step e s)"
  using wsCount_mono [of s e] by (simp add: ws_on_open_def bot_logger_def)

subsection \<open>Listeners of the emitter\<close>

lemma joined_step: "joined (bot_step e s) = joined s + (if accepted_join e then 1 else 0)"
  by (cases e)
     (simp_all add: ws_on_open_def ws_on_error_def ws_on_close_def setTimeout_def
       ws_on_message_def emit_audio_def on_interaction_def join_voice_channel_def
       connection_on_ready_def bot_logger_def run_timers_def Let_def)

lemma joined_fold:
  "joined (fold bot_step evs s) = joined s + length (filter accepted_join evs)"
  by (induction evs arbitrary: s) (simp_all add: joined_step)

lemma joined_run: "joined (bot_run evs) = length (filter accepted_join evs)"
  by (simp add: bot_run_def joined_fold)
     (simp add: bot_init_def connectToWebSocket_def bot_logger_def Let_def)

lemma listeners_step:
  "audioListeners (bot_step e s) =
     (if accepted_join e then audioListeners s @ [joined s] else audioListeners s)"
  by (cases e)
     (simp_all add: ws_on_open_def ws_on_error_def ws_on_close_def setTimeout_def
       ws_on_message_def emit_audio_def on_interaction_def join_voice_channel_def
       connection_on_ready_def bot_logger_def run_timers_def Let_def)

text \<open>
  Claim C9, as stated, fails: an invocation of the handler with a channel that is not a
  voice channel replies with the error and registers no listener; a frame that arrives
  afterwards reaches no stream.
\<close>
theorem rejected_join_registers_nothing_counterexample:
  "audioListeners (bot_run [Interaction ''join-voice-channel'' text_channel]) =
     audioListeners (bot_run []) \<and>
   joined (bot_run [Interaction ''join-voice-channel'' text_channel]) = 0 \<and>
   replies (bot_run [Interaction ''join-voice-channel'' text_channel]) =
     [''ERROR: can only set this to a voice channel!''] \<and>
   streamData
     (bot_run [Interaction ''join-voice-channel'' text_channel, WsMessage 0 [1, 2, 3]]) 0 = []"
  by (simp add: bot_defs)

text \<open>
  Claim C9, amended. Every invocation of the handler with a channel that passes its check
  appends a new \<open>audio\<close> listener to the emitter, and no event removes a listener: after
  a trace with \<open>n\<close> accepted invocations the listeners are those of the streams 0 to n-1,
  and each frame that arrives is appended to every one of these streams, not only to the
  newest. An invocation that fails the check replies with the error message and registers
  nothing: listeners, streams and their data stay as they were.
\<close>

theorem accepted_joins_accumulate:
  "let s = bot_run evs
   in joined s = length (filter accepted_join evs) \<and>
      audioListeners s = [0..<joined s] \<and>
      audioListeners (bot_step e s) =
        (if accepted_join e then audioListeners s @ [joined s] else audioListeners s) \<and>
      (w < wsCount s \<longrightarrow>
         (\<forall>k. streamData (bot_step (WsMessage w d) s) k =
              (if k < joined s then streamData s k @ [d] else streamData s k))) \<and>
      (channelType ch \<noteq> GuildVoice \<or> \<not> isVoiceChannel ch \<longrightarrow>
         replies (bot_step (Interaction ''join-voice-channel'' ch) s) =
           replies s @ [''ERROR: can only set this to a voice channel!''] \<and>
         audioListeners (bot_step (Interaction ''join-voice-channel'' ch) s) = audioListeners s \<and>
         joined (bot_step (Interaction ''join-voice-channel'' ch) s) = joined s \<and>
         streamData (bot_step (Interaction ''join-voice-channel'' ch) s) = streamData s)"
proof -
  let ?s = "bot_run evs"
  have inv: "bot_inv ?s" by (rule bot_inv_run)
  have a: "joined ?s = length (filter accepted_join evs)" by (rule joined_run)
  have b: "audioListeners ?s = [0..<joined ?s]" using inv by (simp add: bot_inv_def)
  have c: "audioListeners (bot_step e ?s) =
        (if accepted_join e then audioListeners ?s @ [joined ?s] else audioListeners ?s)"
    by (rule listeners_step)
  have d: "w < wsCount ?s \<longrightarrow>
         (\<forall>k. streamData (bot_step (WsMessage w d) ?s) k =
              (if k < joined ?s then streamData ?s k @ [d] else streamData ?s k))"
    by (simp add: ws_on_message_eq [OF inv])
  have f: "channelType ch \<noteq> GuildVoice \<or> \<not> isVoiceChannel ch \<longrightarrow>
         replies (bot_step (Interaction ''join-voice-channel'' ch) ?s) =
           replies ?s @ [''ERROR: can only set this to a voice channel!''] \<and>
         audioListeners (bot_step (Interaction ''join-voice-channel'' ch) ?s) = audioListeners ?s \<and>
         joined (bot_step (Interaction ''join-voice-channel'' ch) ?s) = joined ?s \<and>
         streamData (bot_step (Interaction ''join-voice-channel'' ch) ?s) = streamData ?s"
    by (auto simp: on_interaction_def join_voice_channel_def bot_logger_def Let_def)
  show ?thesis unfolding Let_def by (intro conjI a b c d f)
qed

theorem accepted_joins_accumulate_witness:
  "0 < wsCount (bot_run evs9) \<and> joined (bot_run evs9) = 2 \<and>
   audioListeners (bot_run evs9) = [0, 1] \<and>
   streamData (bot_step (WsMessage 0 [2, 3]) (bot_run evs9)) 0 = [[1], [2, 3]] \<and>
   streamData (bot_step (WsMessage 0 [2, 3]) (bot_run evs9)) 1 = [[2, 3]] \<and>
   channelType text_channel \<noteq> GuildVoice \<and>
   replies (bot_step (Interaction ''join-voice-channel'' text_channel) (bot_run evs9)) =
     replies (bot_run evs9) @ [''ERROR: can only set this to a voice channel!''] \<and>
   audioListeners (bot_step (Interaction ''join-voice-channel'' text_channel) (bot_run evs9)) =
     [0, 1]"
proof -
  have t: "channelType text_channel \<noteq> GuildVoice"
    by (simp add: text_channel_def GuildVoice_def)
  from accepted_joins_accumulate [of evs9 _ 0 "[2, 3]" text_channel] t
  have r: "replies (bot_step (Interaction ''join-voice-channel'' text_channel) (bot_run evs9)) =
      replies (bot_run evs9) @ [''ERROR: can only set this to a voice channel!'']"
    "audioListeners (bot_step (Interaction ''join-voice-channel'' text_channel) (bot_run evs9)) =
      audioListeners (bot_run evs9)"
    unfolding Let_def by blast+
  have a: "0 < wsCount (bot_run evs9)" "joined (bot_run evs9) = 2"
    "audioListeners (bot_run evs9) = [0, 1]" "streamData (bot_run evs9) 0 = [[1]]"
    "streamData (bot_run evs9) 1 = []"
    by (simp_all add: evs9_def bot_defs)
  from accepted_joins_accumulate [of evs9 _ 0 "[2, 3]"] a(1)
  have b: "\<forall>k. streamData (bot_step (WsMessage 0 [2, 3]) (bot_run evs9)) k =
      (if k < joined (bot_run evs9) then streamData (bot_run evs9) k @ [[2, 3]]
       else streamData (bot_run evs9) k)"
    unfolding Let_def by blast
  have "streamData (bot_step (WsMessage 0 [2, 3]) (bot_run evs9)) 0 = [[1], [2, 3]]"
    using b a by simp
  moreover have "streamData (bot_step (WsMessage 0 [2, 3]) (bot_run evs9)) 1 = [[2, 3]]"
    using b a by simp
  ultimately show ?thesis using a t r by simp
qed

end
